theory Spec2Isabelle
  imports Main "HOL-Library.Word"
begin

section \<open>Python values and exceptions\<close>

text \<open>
  The module \<^verbatim>\<open>file_operation.py\<close> is a set of thin wrappers around Python's
  \<^verbatim>\<open>os.path\<close>, \<^verbatim>\<open>glob\<close>, \<^verbatim>\<open>shutil\<close>, \<^verbatim>\<open>json\<close> and the builtin \<^verbatim>\<open>open\<close>.
  The wrappers are embedded line by line; the library calls they make are modelled
  below for CPython 3 on a POSIX system (path separator \<^verbatim>\<open>/\<close>, line separator
  \<^verbatim>\<open>\n\<close>), over a file system without links, permissions or special files, and for
  paths without the NUL character.

  A Python \<^verbatim>\<open>str\<close> that is a path is a \<^typ>\<open>string\<close>; the text of a file is a list of
  Unicode code points; the bytes of a file are 8-bit words.
\<close>

type_synonym byte = "8 word"
type_synonym unicode = "nat list"

definition LF :: nat where "LF = 10"
definition CR :: nat where "CR = 13"

text \<open>What \<^verbatim>\<open>read_file\<close> can return: a \<^verbatim>\<open>str\<close> or a \<^verbatim>\<open>bytes\<close> object.\<close>

datatype content = Text unicode | Bytes "byte list"

datatype errno = ENOENT | ENOTDIR | EISDIR

text \<open>
  The exceptions that can leave the module. \<open>OSError e p\<close> is the \<^verbatim>\<open>OSError\<close> subclass
  of the error number \<open>e\<close> with \<^verbatim>\<open>filename\<close> \<open>p\<close>: \<^verbatim>\<open>FileNotFoundError\<close> for ENOENT,
  \<^verbatim>\<open>NotADirectoryError\<close> for ENOTDIR, \<^verbatim>\<open>IsADirectoryError\<close> for EISDIR; its
  \<^verbatim>\<open>strerror\<close> is what \<^verbatim>\<open>os.strerror\<close> gives for the number.
  \<open>DirectoryDoesNotExist p\<close> is the \<^verbatim>\<open>FileNotFoundError\<close> that \<^verbatim>\<open>shutil.copyfile\<close>
  raises with the message \<^verbatim>\<open>Directory does not exist: p\<close>.
\<close>

datatype error =
    OSError errno string
  | DirectoryDoesNotExist string
  | SameFileError string string
  | TypeError
  | ValueError
  | LookupError string
  | UnicodeDecodeError
  | UnicodeEncodeError
  | JSONDecodeError
  | IndexError
  | UnsupportedOperation

abbreviation FileNotFoundError :: "string \<Rightarrow> error" where
  "FileNotFoundError p \<equiv> OSError ENOENT p"

section \<open>posixpath\<close>

definition sep :: char where "sep = CHR ''/''"

text \<open>\<^verbatim>\<open>s.startswith(c)\<close> and \<^verbatim>\<open>s.endswith(c)\<close> for a one-character \<open>c\<close>.\<close>

definition startswith :: "'a list \<Rightarrow> 'a \<Rightarrow> bool" where
  "startswith s c = (case s of [] \<Rightarrow> False | x # _ \<Rightarrow> x = c)"

definition endswith :: "'a list \<Rightarrow> 'a \<Rightarrow> bool" where
  "endswith s c = startswith (rev s) c"

text \<open>\<^verbatim>\<open>p.rstrip('/')\<close>.\<close>

definition rstrip_sep :: "string \<Rightarrow> string" where
  "rstrip_sep p = rev (dropWhile (\<lambda>c. c = sep) (rev p))"

text \<open>\<^verbatim>\<open>i = p.rfind('/') + 1\<close>; \<^verbatim>\<open>p[:i]\<close> and \<^verbatim>\<open>p[i:]\<close>.\<close>

definition upto_last_sep :: "string \<Rightarrow> string" where
  "upto_last_sep p = rev (dropWhile (\<lambda>c. c \<noteq> sep) (rev p))"

definition os_path_basename :: "string \<Rightarrow> string" where
  "os_path_basename p = rev (takeWhile (\<lambda>c. c \<noteq> sep) (rev p))"

text \<open>
  \<^verbatim>\<open>head, tail = p[:i], p[i:]\<close>;
  \<^verbatim>\<open>if head and head != sep*len(head): head = head.rstrip(sep)\<close>.
\<close>

definition os_path_split :: "string \<Rightarrow> string \<times> string" where
  "os_path_split p =
     (let head = upto_last_sep p; tail = os_path_basename p
      in (if head \<noteq> [] \<and> \<not> list_all (\<lambda>c. c = sep) head then rstrip_sep head else head,
          tail))"

text \<open>
  \<^verbatim>\<open>os.path.join(a, b)\<close>: \<^verbatim>\<open>b\<close> alone when it is absolute, else \<^verbatim>\<open>a + b\<close> when
  \<^verbatim>\<open>a\<close> is empty or ends with the separator, else \<^verbatim>\<open>a + '/' + b\<close>.
\<close>

definition os_path_join :: "string \<Rightarrow> string \<Rightarrow> string" where
  "os_path_join a b =
     (if startswith b sep then b
      else if a = [] \<or> endswith a sep then a @ b
      else a @ sep # b)"

text \<open>
  \<^verbatim>\<open>s.split(c)\<close> for a one-character separator: the pieces between the occurrences
  of \<open>c\<close>, empty pieces included; never an empty list.
\<close>

fun str_split :: "'a \<Rightarrow> 'a list \<Rightarrow> 'a list list" where
  "str_split c [] = [[]]"
| "str_split c (x # xs) =
     (if x = c then [] # str_split c xs
      else (case str_split c xs of
              [] \<Rightarrow> [[x]]
            | piece # pieces \<Rightarrow> (x # piece) # pieces))"

text \<open>\<^verbatim>\<open>c.join(pieces)\<close> and \<^verbatim>\<open>', '.join(paths)\<close>.\<close>

fun str_join :: "'a list \<Rightarrow> 'a list list \<Rightarrow> 'a list" where
  "str_join s [] = []"
| "str_join s [x] = x"
| "str_join s (x # y # ys) = x @ s @ str_join s (y # ys)"

section \<open>The file system\<close>

text \<open>
  A file system is a table from resolved paths (the list of directory names from the
  root, then the entry's name) to what is there, and the current directory. The root
  is always a directory. The table's order is the order in which a directory is listed.
\<close>

datatype node = File "byte list" | Dir

type_synonym key = "string list"

record filesystem =
  nodes :: "(key \<times> node) list"
  cwd :: key

definition node_at :: "filesystem \<Rightarrow> key \<Rightarrow> node option" where
  "node_at fs k = (if k = [] then Some Dir else map_of (nodes fs) k)"

text \<open>
  Path resolution as the kernel does it without symbolic links: every component is
  looked up in the directory reached so far, which must exist and be a directory.
\<close>

fun walk :: "filesystem \<Rightarrow> key \<Rightarrow> string list \<Rightarrow> errno + key" where
  "walk fs cur [] = Inr cur"
| "walk fs cur (c # cs) =
     (case node_at fs cur of
        None \<Rightarrow> Inl ENOENT
      | Some (File _) \<Rightarrow> Inl ENOTDIR
      | Some Dir \<Rightarrow>
          walk fs (if c = ''.'' then cur else if c = ''..'' then butlast cur else cur @ [c]) cs)"

definition components :: "string \<Rightarrow> string list" where
  "components p = filter (\<lambda>c. c \<noteq> []) (str_split sep p)"

definition resolve :: "filesystem \<Rightarrow> string \<Rightarrow> errno + key" where
  "resolve fs p =
     (if p = [] then Inl ENOENT
      else walk fs (if startswith p sep then [] else cwd fs) (components p))"

text \<open>\<^verbatim>\<open>os.stat(p)\<close>: a path with a trailing slash must name a directory.\<close>

definition os_stat :: "filesystem \<Rightarrow> string \<Rightarrow> errno + node" where
  "os_stat fs p =
     (case resolve fs p of
        Inl e \<Rightarrow> Inl e
      | Inr k \<Rightarrow>
          (case node_at fs k of
             None \<Rightarrow> Inl ENOENT
           | Some (File b) \<Rightarrow> if endswith p sep then Inl ENOTDIR else Inr (File b)
           | Some Dir \<Rightarrow> Inr Dir))"

text \<open>
  \<^verbatim>\<open>os.path.isfile\<close>, \<^verbatim>\<open>os.path.exists\<close>: \<^verbatim>\<open>os.stat\<close> with every \<^verbatim>\<open>OSError\<close>
  turned into \<^verbatim>\<open>False\<close>.
\<close>

definition os_path_isfile :: "filesystem \<Rightarrow> string \<Rightarrow> bool" where
  "os_path_isfile fs p = (case os_stat fs p of Inr (File _) \<Rightarrow> True | _ \<Rightarrow> False)"

definition os_path_exists :: "filesystem \<Rightarrow> string \<Rightarrow> bool" where
  "os_path_exists fs p = (case os_stat fs p of Inr _ \<Rightarrow> True | Inl _ \<Rightarrow> False)"

text \<open>
  \<^verbatim>\<open>os.path.isdir(s)\<close> is \<^verbatim>\<open>try: st = os.stat(s)\<close>,
  \<^verbatim>\<open>except (OSError, ValueError): return False\<close>. Its argument is any Python object:
  for one that is not a path (here: the builtin class \<^verbatim>\<open>str\<close> itself) \<^verbatim>\<open>os.stat\<close>
  raises \<^verbatim>\<open>TypeError\<close>, which \<^verbatim>\<open>isdir\<close> does not catch.
\<close>

datatype pyobject = Str string | The_class_str

definition os_path_isdir :: "filesystem \<Rightarrow> pyobject \<Rightarrow> error + bool" where
  "os_path_isdir fs v =
     (case v of
        The_class_str \<Rightarrow> Inl TypeError
      | Str p \<Rightarrow> Inr (case os_stat fs p of Inr Dir \<Rightarrow> True | _ \<Rightarrow> False))"

text \<open>\<^verbatim>\<open>os.path.isdir(p)\<close> for a string \<open>p\<close>, which cannot raise.\<close>

definition isdir :: "filesystem \<Rightarrow> string \<Rightarrow> bool" where
  "isdir fs p = (os_path_isdir fs (Str p) = Inr True)"

text \<open>
  \<^verbatim>\<open>os.scandir(p)\<close>: the names in a directory, in the table's order (\<^verbatim>\<open>.\<close> and
  \<^verbatim>\<open>..\<close> are not listed).
\<close>

definition os_scandir :: "filesystem \<Rightarrow> string \<Rightarrow> errno + string list" where
  "os_scandir fs p =
     (case resolve fs p of
        Inl e \<Rightarrow> Inl e
      | Inr k \<Rightarrow>
          (case node_at fs k of
             None \<Rightarrow> Inl ENOENT
           | Some (File _) \<Rightarrow> Inl ENOTDIR
           | Some Dir \<Rightarrow>
               Inr (remdups (map (\<lambda>e. last (fst e))
                      (filter (\<lambda>e. fst e \<noteq> [] \<and> butlast (fst e) = k) (nodes fs))))))"

text \<open>
  Opening a file for reading (\<^verbatim>\<open>O_RDONLY\<close>): the open file is identified by its
  resolved path. Python refuses a directory with \<^verbatim>\<open>IsADirectoryError\<close>.
\<close>

definition os_open_read :: "filesystem \<Rightarrow> string \<Rightarrow> error + key" where
  "os_open_read fs p =
     (case os_stat fs p of
        Inl e \<Rightarrow> Inl (OSError e p)
      | Inr Dir \<Rightarrow> Inl (OSError EISDIR p)
      | Inr (File _) \<Rightarrow> (case resolve fs p of Inl e \<Rightarrow> Inl (OSError e p) | Inr k \<Rightarrow> Inr k))"

definition put :: "filesystem \<Rightarrow> key \<Rightarrow> byte list \<Rightarrow> filesystem" where
  "put fs k b = fs\<lparr>nodes := (k, File b) # filter (\<lambda>e. fst e \<noteq> k) (nodes fs)\<rparr>"

text \<open>
  Opening a file for writing (\<^verbatim>\<open>O_WRONLY | O_CREAT | O_TRUNC\<close>): an existing file is
  emptied, a missing one is created in its directory. A directory, and any path with a
  trailing slash, gives EISDIR.
\<close>

definition os_open_write :: "filesystem \<Rightarrow> string \<Rightarrow> (error + key) \<times> filesystem" where
  "os_open_write fs p =
     (case resolve fs p of
        Inl e \<Rightarrow> (Inl (OSError e p), fs)
      | Inr k \<Rightarrow>
          (case node_at fs k of
             Some Dir \<Rightarrow> (Inl (OSError EISDIR p), fs)
           | Some (File _) \<Rightarrow>
               if endswith p sep then (Inl (OSError EISDIR p), fs) else (Inr k, put fs k [])
           | None \<Rightarrow>
               if endswith p sep then (Inl (OSError EISDIR p), fs)
               else if node_at fs (butlast k) = Some Dir then (Inr k, put fs k [])
               else (Inl (OSError ENOENT p), fs)))"

definition contents_at :: "filesystem \<Rightarrow> key \<Rightarrow> byte list" where
  "contents_at fs k = (case node_at fs k of Some (File b) \<Rightarrow> b | _ \<Rightarrow> [])"

section \<open>glob\<close>

text \<open>
  \<^verbatim>\<open>glob.glob(pathname)\<close> with its default arguments, as CPython's \<^verbatim>\<open>glob._iglob\<close>
  computes it. Two features are outside the model, and the result is then \<open>None\<close>:
  bracket expressions (a \<^verbatim>\<open>[\<close> in the last component's pattern) and wildcards in
  the directory part. \<open>Some names\<close> is the list \<^verbatim>\<open>glob.glob\<close> returns.
\<close>

text \<open>\<^verbatim>\<open>magic_check = re.compile('([*?[])')\<close>.\<close>

definition has_magic :: "string \<Rightarrow> bool" where
  "has_magic s = list_ex (\<lambda>c. c = CHR ''*'' \<or> c = CHR ''?'' \<or> c = CHR ''['') s"

text \<open>\<^verbatim>\<open>_ishidden(path)\<close>: \<^verbatim>\<open>path[0] == '.'\<close>, on the non-empty names and patterns it is given.\<close>

definition ishidden :: "string \<Rightarrow> bool" where
  "ishidden path = startswith path (CHR ''.'')"

text \<open>
  \<^verbatim>\<open>fnmatch\<close> on a pattern without bracket expressions: \<^verbatim>\<open>*\<close> matches any run of
  characters, \<^verbatim>\<open>?\<close> any one character, every other character itself, and the whole
  name must be matched.
\<close>

fun wild_match :: "string \<Rightarrow> string \<Rightarrow> bool" where
  "wild_match [] [] = True"
| "wild_match [] (c # cs) = False"
| "wild_match (p # ps) [] = (p = CHR ''*'' \<and> wild_match ps [])"
| "wild_match (p # ps) (c # cs) =
     (if p = CHR ''*'' then wild_match ps (c # cs) \<or> wild_match (p # ps) cs
      else (p = CHR ''?'' \<or> p = c) \<and> wild_match ps cs)"

definition fnmatch_filter :: "string list \<Rightarrow> string \<Rightarrow> string list option" where
  "fnmatch_filter names pat =
     (if CHR ''['' \<in> set pat then None else Some (filter (wild_match pat) names))"

text \<open>
  \<^verbatim>\<open>_iterdir(dirname)\<close>: the names \<^verbatim>\<open>os.scandir\<close> yields (of the current directory
  when \<^verbatim>\<open>dirname\<close> is empty); nothing when \<^verbatim>\<open>os.scandir\<close> raises \<^verbatim>\<open>OSError\<close>.
\<close>

definition iterdir :: "filesystem \<Rightarrow> string \<Rightarrow> string list" where
  "iterdir fs dirname =
     (case os_scandir fs (if dirname = [] then ''.'' else dirname) of
        Inl _ \<Rightarrow> []
      | Inr names \<Rightarrow> names)"

text \<open>
  \<^verbatim>\<open>_glob1\<close>: \<^verbatim>\<open>names = list(_iterdir(dirname))\<close>;
  \<^verbatim>\<open>if not _ishidden(pattern): names = (x for x in names if not _ishidden(x))\<close>;
  \<^verbatim>\<open>return fnmatch.filter(names, pattern)\<close>.
\<close>

definition glob1 :: "filesystem \<Rightarrow> string \<Rightarrow> string \<Rightarrow> string list option" where
  "glob1 fs dirname pattern =
     (let names = iterdir fs dirname;
          names = (if \<not> ishidden pattern then filter (\<lambda>x. \<not> ishidden x) names else names)
      in fnmatch_filter names pattern)"

text \<open>\<^verbatim>\<open>_glob0\<close>: a last component without wildcards is looked up as it is.\<close>

definition glob0 :: "filesystem \<Rightarrow> string \<Rightarrow> string \<Rightarrow> string list" where
  "glob0 fs dirname basename =
     (if basename \<noteq> [] then
        (if os_path_exists fs (os_path_join dirname basename) then [basename] else [])
      else (if isdir fs dirname then [basename] else []))"

definition glob :: "filesystem \<Rightarrow> string \<Rightarrow> string list option" where
  "glob fs pathname =
     (let dirname = fst (os_path_split pathname); basename = snd (os_path_split pathname) in
      if \<not> has_magic pathname then
        (if basename \<noteq> [] then Some (if os_path_exists fs pathname then [pathname] else [])
         else Some (if isdir fs dirname then [pathname] else []))
      else if dirname = [] then glob1 fs dirname basename
      else if dirname \<noteq> pathname \<and> has_magic dirname then None
      else map_option (map (os_path_join dirname))
             (if has_magic basename then glob1 fs dirname basename
              else Some (glob0 fs dirname basename)))"

section \<open>open, read, write\<close>

text \<open>
  A codec, as \<^verbatim>\<open>codecs.lookup\<close> finds it by name: decoding and encoding a whole text
  under the error handler \<^verbatim>\<open>strict\<close> (\<open>None\<close> is \<^verbatim>\<open>UnicodeDecodeError\<close>, respectively
  \<^verbatim>\<open>UnicodeEncodeError\<close>). The codecs are a parameter of the model.
\<close>

record codec =
  decode :: "byte list \<Rightarrow> unicode option"
  encode :: "unicode \<Rightarrow> byte list option"

type_synonym codecs = "string \<Rightarrow> codec option"

text \<open>
  A text file opened with \<^verbatim>\<open>newline=None\<close> (the default, which this module never
  changes) is read in universal-newlines mode: \<^verbatim>\<open>\r\n\<close> and a lone \<^verbatim>\<open>\r\<close> both arrive
  as \<^verbatim>\<open>\n\<close>. On writing, \<^verbatim>\<open>\n\<close> becomes \<^verbatim>\<open>os.linesep\<close>, which is \<^verbatim>\<open>\n\<close> itself here.
\<close>

fun universal_newlines :: "unicode \<Rightarrow> unicode" where
  "universal_newlines [] = []"
| "universal_newlines [c] = [if c = CR then LF else c]"
| "universal_newlines (c # d # cs) =
     (if c = CR \<and> d = LF then LF # universal_newlines cs
      else if c = CR then LF # universal_newlines (d # cs)
      else c # universal_newlines (d # cs))"

datatype open_mode = Mode_r | Mode_rb | Mode_w | Mode_wb

definition binary :: "open_mode \<Rightarrow> bool" where
  "binary m = (m = Mode_rb \<or> m = Mode_wb)"

definition writing :: "open_mode \<Rightarrow> bool" where
  "writing m = (m = Mode_w \<or> m = Mode_wb)"

datatype file_obj =
    TextReader key codec
  | BufferedReader key
  | TextWriter key codec
  | BufferedWriter key

text \<open>
  \<^verbatim>\<open>open(file, mode, encoding=encoding)\<close>. In this order: binary mode with an encoding
  is refused (\<^verbatim>\<open>ValueError: binary mode doesn't take an encoding argument\<close>) before the
  file is touched; the file is opened; in text mode the codec is looked up (no encoding
  means the locale's). Opening for writing empties or creates the file.
\<close>

definition py_open ::
  "codecs \<Rightarrow> filesystem \<Rightarrow> string \<Rightarrow> open_mode \<Rightarrow> string option \<Rightarrow> (error + file_obj) \<times> filesystem"
where
  "py_open cs fs file m encoding =
     (if binary m \<and> encoding \<noteq> None then (Inl ValueError, fs)
      else
        (case (if writing m then os_open_write fs file else (os_open_read fs file, fs)) of
           (Inl e, fs') \<Rightarrow> (Inl e, fs')
         | (Inr k, fs') \<Rightarrow>
             if binary m then (Inr (if writing m then BufferedWriter k else BufferedReader k), fs')
             else
               (let name = (case encoding of None \<Rightarrow> ''locale'' | Some enc \<Rightarrow> enc) in
                case cs name of
                  None \<Rightarrow> (Inl (LookupError name), fs')
                | Some c \<Rightarrow> (Inr (if writing m then TextWriter k c else TextReader k c), fs'))))"

text \<open>\<^verbatim>\<open>file_obj.read()\<close>: everything in the file, as it is at the time of the call.\<close>

definition file_read :: "filesystem \<Rightarrow> file_obj \<Rightarrow> error + content" where
  "file_read fs f =
     (case f of
        BufferedReader k \<Rightarrow> Inr (Bytes (contents_at fs k))
      | TextReader k c \<Rightarrow>
          (case decode c (contents_at fs k) of
             None \<Rightarrow> Inl UnicodeDecodeError
           | Some t \<Rightarrow> Inr (Text (universal_newlines t)))
      | _ \<Rightarrow> Inl UnsupportedOperation)"

text \<open>\<^verbatim>\<open>file_obj.write(data)\<close>: the encoded text, respectively the bytes, are appended.\<close>

definition file_write :: "filesystem \<Rightarrow> file_obj \<Rightarrow> content \<Rightarrow> (error + unit) \<times> filesystem" where
  "file_write fs f data =
     (case f of
        TextWriter k c \<Rightarrow>
          (case data of
             Bytes _ \<Rightarrow> (Inl TypeError, fs)
           | Text t \<Rightarrow>
               (case encode c t of
                  None \<Rightarrow> (Inl UnicodeEncodeError, fs)
                | Some b \<Rightarrow> (Inr (), put fs k (contents_at fs k @ b))))
      | BufferedWriter k \<Rightarrow>
          (case data of
             Text _ \<Rightarrow> (Inl TypeError, fs)
           | Bytes b \<Rightarrow> (Inr (), put fs k (contents_at fs k @ b)))
      | _ \<Rightarrow> (Inl UnsupportedOperation, fs))"

section \<open>shutil.copyfile\<close>

text \<open>
  \<^verbatim>\<open>shutil._samefile\<close>: \<^verbatim>\<open>os.path.samefile(src, dst)\<close>, and \<^verbatim>\<open>False\<close> when either path
  cannot be \<^verbatim>\<open>stat\<close>ed.
\<close>

definition samefile :: "filesystem \<Rightarrow> string \<Rightarrow> string \<Rightarrow> bool" where
  "samefile fs a b =
     (os_path_exists fs a \<and> os_path_exists fs b \<and> resolve fs a = resolve fs b)"

text \<open>
  \<^verbatim>\<open>shutil.copyfile(src, dst)\<close>: refuse to copy a file onto itself; open \<^verbatim>\<open>src\<close> with
  \<^verbatim>\<open>'rb'\<close>, then \<^verbatim>\<open>dst\<close> with \<^verbatim>\<open>'wb'\<close>; copy the bytes. An \<^verbatim>\<open>IsADirectoryError\<close> for a
  \<^verbatim>\<open>dst\<close> that does not exist is raised as \<^verbatim>\<open>FileNotFoundError('Directory does not
  exist: ...')\<close>.
\<close>

definition shutil_copyfile :: "filesystem \<Rightarrow> string \<Rightarrow> string \<Rightarrow> (error + unit) \<times> filesystem" where
  "shutil_copyfile fs src dst =
     (if samefile fs src dst then (Inl (SameFileError src dst), fs)
      else
        (case os_open_read fs src of
           Inl e \<Rightarrow> (Inl e, fs)
         | Inr fsrc \<Rightarrow>
             (case os_open_write fs dst of
                (Inl e, fs') \<Rightarrow>
                  (Inl (if e = OSError EISDIR dst \<and> \<not> os_path_exists fs' dst
                        then DirectoryDoesNotExist dst else e), fs')
              | (Inr fdst, fs') \<Rightarrow> (Inr (), put fs' fdst (contents_at fs' fsrc)))))"

section \<open>Python lists as objects\<close>

text \<open>
  \<^verbatim>\<open>copy_files\<close> receives a reference to the caller's list and works on a copy that
  \<^verbatim>\<open>__pop_none_file_paths__\<close> changes in place, so lists are objects in a store: a
  reference is an index into the store, a new object is put at its end. A reference
  that Python can hold always points into the store.
\<close>

type_synonym ref = nat
type_synonym store = "string list list"

definition deref :: "store \<Rightarrow> ref \<Rightarrow> string list" where
  "deref h r = (if r < length h then h ! r else [])"

text \<open>\<^verbatim>\<open>xs.copy()\<close>: a new list object with the same items.\<close>

definition list_copy :: "store \<Rightarrow> ref \<Rightarrow> ref \<times> store" where
  "list_copy h r = (length h, h @ [deref h r])"

text \<open>
  \<^verbatim>\<open>xs.pop(i)\<close> for an index \<^verbatim>\<open>i >= 0\<close>: the item is taken out of the object and
  returned; \<^verbatim>\<open>IndexError\<close> when there is no such item.
\<close>

definition list_pop :: "store \<Rightarrow> ref \<Rightarrow> nat \<Rightarrow> (error + string) \<times> store" where
  "list_pop h r i =
     (let xs = deref h r in
      if i < length xs then (Inr (xs ! i), h[r := take i xs @ drop (Suc i) xs])
      else (Inl IndexError, h))"

section \<open>The module file\_operation\<close>

text \<open>
  Every function takes the state it works on (the codecs, the file system, the list
  objects) as its first arguments and returns what it raises or returns, with the new
  state where it changes it. The default values of the Python parameters
  (\<^verbatim>\<open>encoding=__default_encoding__\<close>, \<^verbatim>\<open>is_binary=False\<close>, \<^verbatim>\<open>ignore_none_file=False\<close>,
  \<^verbatim>\<open>suffix=''\<close>, \<^verbatim>\<open>prefix=''\<close>) are written out by the caller.
\<close>

definition default_encoding :: string where
  "default_encoding = ''utf-8''"

text \<open>
  \<^verbatim>\<open>def get_file_list(src_dir, suffix='', prefix='')\<close>:
  \<^verbatim>\<open>return glob.glob('{}/{}*{}'.format(src_dir, suffix, prefix))\<close>.
\<close>

definition get_file_list :: "filesystem \<Rightarrow> string \<Rightarrow> string \<Rightarrow> string \<Rightarrow> string list option" where
  "get_file_list fs src_dir suffix prefix =
     glob fs (src_dir @ ''/'' @ suffix @ ''*'' @ prefix)"

text \<open>
  \<^verbatim>\<open>def read_file(filepath, encoding, is_binary)\<close>:
  \<^verbatim>\<open>with open(filepath, mode="rb" if is_binary else "r", encoding=encoding) as file_obj:\<close>
  \<^verbatim>\<open>context = file_obj.read()\<close>; \<^verbatim>\<open>return context\<close>.
\<close>

definition read_file :: "codecs \<Rightarrow> filesystem \<Rightarrow> string \<Rightarrow> string \<Rightarrow> bool \<Rightarrow> error + content" where
  "read_file cs fs filepath encoding is_binary =
     (case py_open cs fs filepath (if is_binary then Mode_rb else Mode_r) (Some encoding) of
        (Inl e, _) \<Rightarrow> Inl e
      | (Inr file_obj, fs') \<Rightarrow> file_read fs' file_obj)"


text \<open>
  \<^verbatim>\<open>def read_file_lines(filepath, encoding)\<close>:
  \<^verbatim>\<open>context = read_file(filepath, encoding=encoding)\<close>; \<^verbatim>\<open>return context.split('\n')\<close>.
  (\<^verbatim>\<open>bytes.split\<close> with a \<^verbatim>\<open>str\<close> argument would raise \<^verbatim>\<open>TypeError\<close>.)
\<close>

definition read_file_lines ::
  "codecs \<Rightarrow> filesystem \<Rightarrow> string \<Rightarrow> string \<Rightarrow> error + unicode list"
where
  "read_file_lines cs fs filepath encoding =
     (case read_file cs fs filepath encoding False of
        Inl e \<Rightarrow> Inl e
      | Inr (Text context) \<Rightarrow> Inr (str_split LF context)
      | Inr (Bytes _) \<Rightarrow> Inl TypeError)"


text \<open>
  \<^verbatim>\<open>def __raise_fnf_error__(path)\<close>:
  \<^verbatim>\<open>raise FileNotFoundError(errno.ENOENT, os.strerror(errno.ENOENT), path)\<close>.
\<close>

definition raise_fnf_error :: "string \<Rightarrow> error + 'a" where
  "raise_fnf_error path = Inl (FileNotFoundError path)"

text \<open>
  \<^verbatim>\<open>def __validate_path_dir__(path)\<close>:
  \<^verbatim>\<open>if not os.path.isdir(str): __raise_fnf_error__(path)\<close>.
  The argument of \<^verbatim>\<open>os.path.isdir\<close> is the name \<^verbatim>\<open>str\<close>, which is Python's builtin
  string class, not the parameter \<^verbatim>\<open>path\<close>.
\<close>

definition validate_path_dir :: "filesystem \<Rightarrow> string \<Rightarrow> error + unit" where
  "validate_path_dir fs path =
     (case os_path_isdir fs The_class_str of
        Inl e \<Rightarrow> Inl e
      | Inr b \<Rightarrow> if \<not> b then raise_fnf_error path else Inr ())"

text \<open>
  \<^verbatim>\<open>[file_path_list.pop(i) for i in none_file_idx_list]\<close>: the pops happen one after
  the other on the same list object.
\<close>

fun pop_each :: "store \<Rightarrow> ref \<Rightarrow> nat list \<Rightarrow> (error + string list) \<times> store" where
  "pop_each h r [] = (Inr [], h)"
| "pop_each h r (i # idx) =
     (case list_pop h r i of
        (Inl e, h') \<Rightarrow> (Inl e, h')
      | (Inr x, h') \<Rightarrow>
          (case pop_each h' r idx of
             (Inl e, h'') \<Rightarrow> (Inl e, h'')
           | (Inr xs, h'') \<Rightarrow> (Inr (x # xs), h'')))"

text \<open>
  \<^verbatim>\<open>def __pop_none_file_paths__(file_path_list)\<close>:
  \<^verbatim>\<open>none_file_idx_list = [i for i, item in enumerate(file_path_list) if not os.path.isfile(item)]\<close>;
  \<^verbatim>\<open>none_file_idx_list.reverse()\<close>;
  \<^verbatim>\<open>none_file_list = [file_path_list.pop(i) for i in none_file_idx_list]\<close>;
  \<^verbatim>\<open>none_file_list.reverse()\<close>; \<^verbatim>\<open>return none_file_list\<close>.
\<close>

definition pop_none_file_paths ::
  "filesystem \<Rightarrow> store \<Rightarrow> ref \<Rightarrow> (error + string list) \<times> store"
where
  "pop_none_file_paths fs h file_path_list =
     (let none_file_idx_list =
            map fst (filter (\<lambda>e. \<not> os_path_isfile fs (snd e))
                       (enumerate 0 (deref h file_path_list)));
          none_file_idx_list = rev none_file_idx_list
      in case pop_each h file_path_list none_file_idx_list of
           (Inl e, h') \<Rightarrow> (Inl e, h')
         | (Inr none_file_list, h') \<Rightarrow> (Inr (rev none_file_list), h'))"

text \<open>
  \<^verbatim>\<open>for src in file_path_list:\<close>
  \<^verbatim>\<open>shutil.copyfile(src, os.path.join(dest_dir, os.path.basename(src)))\<close>.
  The first copy that raises ends the loop; what was copied before stays.
\<close>

fun copy_each :: "filesystem \<Rightarrow> string \<Rightarrow> string list \<Rightarrow> (error + unit) \<times> filesystem" where
  "copy_each fs dest_dir [] = (Inr (), fs)"
| "copy_each fs dest_dir (src # rest) =
     (case shutil_copyfile fs src (os_path_join dest_dir (os_path_basename src)) of
        (Inl e, fs') \<Rightarrow> (Inl e, fs')
      | (Inr _, fs') \<Rightarrow> copy_each fs' dest_dir rest)"

text \<open>The state a call of \<^verbatim>\<open>copy_files\<close> works on: the files and the list objects.\<close>

record world =
  files :: filesystem
  lists :: store

text \<open>
  \<^verbatim>\<open>copy_files\<close> from its second statement on (lines 97 to 106):
  \<^verbatim>\<open>file_path_list = src_list.copy()\<close>;
  \<^verbatim>\<open>none_exist_file_path_list = __pop_none_file_paths__(file_path_list)\<close>;
  \<^verbatim>\<open>if(none_exist_file_path_list and not ignore_none_file):\<close>
  \<^verbatim>\<open>__raise_fnf_error__(', '.join(none_exist_file_path_list))\<close>; then the loop.
\<close>

definition copy_files_validated :: "world \<Rightarrow> ref \<Rightarrow> string \<Rightarrow> bool \<Rightarrow> (error + unit) \<times> world" where
  "copy_files_validated w src_list dest_dir ignore_none_file =
     (let file_path_list = fst (list_copy (lists w) src_list);
          h1 = snd (list_copy (lists w) src_list)
      in case pop_none_file_paths (files w) h1 file_path_list of
           (Inl e, h2) \<Rightarrow> (Inl e, w\<lparr>lists := h2\<rparr>)
         | (Inr none_exist_file_path_list, h2) \<Rightarrow>
             if none_exist_file_path_list \<noteq> [] \<and> \<not> ignore_none_file
             then (raise_fnf_error (str_join '', '' none_exist_file_path_list), w\<lparr>lists := h2\<rparr>)
             else (case copy_each (files w) dest_dir (deref h2 file_path_list) of
                     (r, fs') \<Rightarrow> (r, \<lparr>files = fs', lists = h2\<rparr>)))"

text \<open>
  \<^verbatim>\<open>def copy_files(src_list, dest_dir, ignore_none_file)\<close>:
  \<^verbatim>\<open>__validate_path_dir__(dest_dir)\<close>, then the statements above.
\<close>

definition copy_files :: "world \<Rightarrow> ref \<Rightarrow> string \<Rightarrow> bool \<Rightarrow> (error + unit) \<times> world" where
  "copy_files w src_list dest_dir ignore_none_file =
     (case validate_path_dir (files w) dest_dir of
        Inl e \<Rightarrow> (Inl e, w)
      | Inr _ \<Rightarrow> copy_files_validated w src_list dest_dir ignore_none_file)"

text \<open>
  \<^verbatim>\<open>def convert_file_charset(src_path, dest_path, src_encoding, dest_encoding)\<close>:
  \<^verbatim>\<open>with open(src_path, mode='r', encoding=src_encoding) as src_file_obj:\<close>
  \<^verbatim>\<open>with open(dest_path, mode='w', encoding=dest_encoding) as dest_file_obj:\<close>
  \<^verbatim>\<open>dest_file_obj.write(src_file_obj.read())\<close>.
\<close>

definition convert_file_charset ::
  "codecs \<Rightarrow> filesystem \<Rightarrow> string \<Rightarrow> string \<Rightarrow> string \<Rightarrow> string \<Rightarrow> (error + unit) \<times> filesystem"
where
  "convert_file_charset cs fs src_path dest_path src_encoding dest_encoding =
     (case py_open cs fs src_path Mode_r (Some src_encoding) of
        (Inl e, fs1) \<Rightarrow> (Inl e, fs1)
      | (Inr src_file_obj, fs1) \<Rightarrow>
          (case py_open cs fs1 dest_path Mode_w (Some dest_encoding) of
             (Inl e, fs2) \<Rightarrow> (Inl e, fs2)
           | (Inr dest_file_obj, fs2) \<Rightarrow>
               (case file_read fs2 src_file_obj of
                  Inl e \<Rightarrow> (Inl e, fs2)
                | Inr data \<Rightarrow> file_write fs2 dest_file_obj data)))"

section \<open>Sample data for the concrete evaluations\<close>

text \<open>
  A codec that agrees with UTF-8 and with Shift-JIS on 7-bit text, on which both
  encode a code point as the byte of the same value, and that rejects everything else.
\<close>

definition seven_bit_codec :: codec where
  "seven_bit_codec =
     \<lparr>decode = (\<lambda>bs. if list_all (\<lambda>b. b < 128) bs then Some (map unat bs) else None),
      encode = (\<lambda>t. if list_all (\<lambda>c. c < 128) t then Some (map of_nat t) else None)\<rparr>"

definition sample_codecs :: codecs where
  "sample_codecs name =
     (if name = ''utf-8'' \<or> name = ''shift_jis'' then Some seven_bit_codec else None)"

text \<open>A file system to evaluate the module on.\<close>

definition sample_fs :: filesystem where
  "sample_fs =
     \<lparr>nodes =
        [([''tmp''], Dir),
         ([''tmp'', ''a.txt''], File [104, 105]),
         ([''out''], Dir),
         ([''d''], Dir),
         ([''d'', ''ab.txt''], File [97, 13, 10, 98]),
         ([''d'', ''abc''], File [97, 10, 98, 10, 99]),
         ([''d'', ''.ab.txt''], File []),
         ([''d'', ''t.json''], File [116, 114, 117, 101, 13, 10])],
      cwd = []\<rparr>"

section \<open>Notions used to state the properties\<close>

text \<open>
  A name of the form \<open>a @ middle @ b\<close>: it begins with \<open>a\<close>, ends with \<open>b\<close>, and the
  two do not overlap in it.
\<close>

definition begins_and_ends :: "string \<Rightarrow> string \<Rightarrow> string \<Rightarrow> bool" where
  "begins_and_ends a b name =
     (length a + length b \<le> length name \<and> take (length a) name = a
      \<and> drop (length name - length b) name = b)"

definition plain :: "string \<Rightarrow> bool" where
  "plain s = (CHR ''*'' \<notin> set s \<and> CHR ''?'' \<notin> set s)"

text \<open>
  The directory \<^verbatim>\<open>glob\<close> lists for the pattern \<^verbatim>\<open>src_dir/...\<close>: \<^verbatim>\<open>src_dir\<close> without
  its trailing slashes, and the root when nothing else is left.
\<close>

definition searched_dir :: "string \<Rightarrow> string" where
  "searched_dir src_dir = fst (os_path_split (src_dir @ [sep]))"



text \<open>The caller's state for \<^verbatim>\<open>copy_files\<close>: one list object, at reference 0.\<close>

definition sample_world :: world where
  "sample_world = \<lparr>files = sample_fs, lists = [[''/tmp/a.txt'', ''/tmp/missing.txt'']]\<rparr>"

text \<open>
  The two conversions of claim C10 one after the other: UTF-8 to Shift-JIS into
  \<^verbatim>\<open>mid_path\<close>, then Shift-JIS back to UTF-8 into \<^verbatim>\<open>back_path\<close>.
\<close>

definition convert_there_and_back ::
  "codecs \<Rightarrow> filesystem \<Rightarrow> string \<Rightarrow> string \<Rightarrow> string \<Rightarrow> (error + unit) \<times> filesystem"
where
  "convert_there_and_back cs fs src_path mid_path back_path =
     (case convert_file_charset cs fs src_path mid_path ''utf-8'' ''shift_jis'' of
        (Inl e, fs1) \<Rightarrow> (Inl e, fs1)
      | (Inr _, fs1) \<Rightarrow> convert_file_charset cs fs1 mid_path back_path ''shift_jis'' ''utf-8'')"

section \<open>Facts about the library model\<close>

subsection \<open>Strings and paths\<close>

lemma str_split_not_Nil: "str_split c xs \<noteq> []"
  by (induction xs) (auto split: list.splits)

lemma str_split_all_pieces:
  "\<forall>piece \<in> set (str_split c xs). c \<notin> set piece \<and> set piece \<subseteq> set xs"
proof (induction xs)
  case Nil
  then show ?case by simp
next
  case (Cons x xs)
  obtain p ps where sp: "str_split c xs = p # ps"
    using str_split_not_Nil [of c xs] by (cases "str_split c xs") auto
  with Cons have "c \<notin> set p" "set p \<subseteq> set xs"
    "\<forall>q \<in> set ps. c \<notin> set q \<and> set q \<subseteq> set xs"
    by auto
  with sp show ?case by auto
qed

lemma str_split_pieces: "piece \<in> set (str_split c xs) \<Longrightarrow> c \<notin> set piece \<and> set piece \<subseteq> set xs"
  using str_split_all_pieces [of c xs] by blast

lemma str_join_str_split: "str_join [c] (str_split c xs) = xs"
proof (induction xs)
  case Nil
  then show ?case by simp
next
  case (Cons x xs)
  then show ?case
    by (cases "str_split c xs"; cases "tl (str_split c xs)") (auto simp: str_split_not_Nil)
qed

lemma basename_after_sep:
  assumes "sep \<notin> set t"
  shows "os_path_basename (x @ sep # t) = t"
proof -
  have "takeWhile (\<lambda>c. c \<noteq> sep) (rev t @ sep # rev x) =
        rev t @ takeWhile (\<lambda>c. c \<noteq> sep) (sep # rev x)"
    by (rule takeWhile_append2) (use assms in auto)
  then show ?thesis by (simp add: os_path_basename_def)
qed

lemma upto_last_sep_after_sep:
  assumes "sep \<notin> set t"
  shows "upto_last_sep (x @ sep # t) = x @ [sep]"
proof -
  have "dropWhile (\<lambda>c. c \<noteq> sep) (rev t @ sep # rev x) =
        dropWhile (\<lambda>c. c \<noteq> sep) (sep # rev x)"
    by (rule dropWhile_append2) (use assms in auto)
  then show ?thesis by (simp add: upto_last_sep_def)
qed




lemma set_rstrip_sep: "set (rstrip_sep p) \<subseteq> set p"
  using set_dropWhileD [of _ "\<lambda>c. c = sep" "rev p"] by (auto simp: rstrip_sep_def)

lemma rstrip_sep_Nil_iff: "rstrip_sep p = [] \<longleftrightarrow> list_all (\<lambda>c. c = sep) p"
  by (auto simp: rstrip_sep_def list_all_iff)

lemma os_path_split_after_sep:
  "sep \<notin> set t \<Longrightarrow> os_path_split (x @ sep # t) = (searched_dir x, t)"
  using upto_last_sep_after_sep [of "[]" x]
  by (simp add: os_path_split_def searched_dir_def basename_after_sep upto_last_sep_after_sep Let_def)

lemma searched_dir_cases:
  "searched_dir d = (if list_all (\<lambda>c. c = sep) d then d @ [sep] else rstrip_sep (d @ [sep]))"
  using upto_last_sep_after_sep [of "[]" d]
  by (simp add: searched_dir_def os_path_split_def Let_def)

lemma searched_dir_not_Nil: "searched_dir d \<noteq> []"
  by (simp add: searched_dir_cases rstrip_sep_Nil_iff)

lemma searched_dir_no_magic: "\<not> has_magic d \<Longrightarrow> \<not> has_magic (searched_dir d)"
  using set_rstrip_sep [of "d @ [sep]"]
  by (auto simp: searched_dir_cases has_magic_def list_ex_iff sep_def)

lemma searched_dir_canonical: "d \<noteq> [] \<Longrightarrow> \<not> endswith d sep \<Longrightarrow> searched_dir d = d"
proof -
  assume "d \<noteq> []" and e: "\<not> endswith d sep"
  then obtain c r where r: "rev d = c # r" by (cases "rev d") auto
  with e have c: "c \<noteq> sep" by (simp add: endswith_def startswith_def)
  from r have "c \<in> set d" by (metis list.set_intros(1) set_rev)
  with c have "\<not> list_all (\<lambda>c. c = sep) d" by (auto simp: list_all_iff)
  moreover have "rstrip_sep (d @ [sep]) = d"
    using r c by (simp add: rstrip_sep_def)
  ultimately show ?thesis by (simp add: searched_dir_cases)
qed

subsection \<open>Wildcards and glob\<close>

lemma begins_and_ends_iff: "begins_and_ends a b name = (\<exists>m. name = a @ m @ b)"
proof
  assume h: "begins_and_ends a b name"
  let ?r = "drop (length a) name"
  from h have la: "length a + length b \<le> length name" and ta: "take (length a) name = a"
    and db: "drop (length name - length b) name = b"
    by (simp_all add: begins_and_ends_def)
  have 1: "name = a @ ?r"
    using append_take_drop_id [of "length a" name] ta by simp
  have "length ?r - length b + length a = length name - length b"
    using la by simp
  then have "drop (length ?r - length b) ?r = b"
    using db by (simp only: drop_drop)
  then have "?r = take (length ?r - length b) ?r @ b"
    using append_take_drop_id [of "length ?r - length b" ?r] by simp
  with 1 have "name = a @ take (length ?r - length b) ?r @ b" by simp
  then show "\<exists>m. name = a @ m @ b" ..
next
  assume "\<exists>m. name = a @ m @ b"
  then show "begins_and_ends a b name" by (auto simp: begins_and_ends_def)
qed

lemma wild_match_plain: "plain b \<Longrightarrow> wild_match b n = (n = b)"
proof (induction b arbitrary: n)
  case Nil
  then show ?case by (cases n) auto
next
  case (Cons x b)
  then show ?case by (cases n) (auto simp: plain_def)
qed

lemma wild_match_star: "plain b \<Longrightarrow>
  wild_match (CHR ''*'' # b) n = (length b \<le> length n \<and> drop (length n - length b) n = b)"
proof (induction n)
  case Nil
  then show ?case by (auto simp: wild_match_plain)
next
  case (Cons c cs)
  show ?case
  proof (cases "length b \<le> length cs")
    case True
    then have "Suc (length cs) - length b = Suc (length cs - length b)" by simp
    with True Cons show ?thesis by (auto simp: wild_match_plain)
  next
    case False
    with Cons show ?thesis by (auto simp: wild_match_plain)
  qed
qed

lemma wild_match_prefix: "plain a \<Longrightarrow>
  wild_match (a @ q) n = (length a \<le> length n \<and> take (length a) n = a \<and> wild_match q (drop (length a) n))"
proof (induction a arbitrary: n)
  case Nil
  then show ?case by simp
next
  case (Cons x a)
  then have "plain a" "x \<noteq> CHR ''*''" "x \<noteq> CHR ''?''" by (auto simp: plain_def)
  with Cons.IH show ?case by (cases n) auto
qed

lemma wild_match_around: "plain a \<Longrightarrow> plain b \<Longrightarrow>
  wild_match (a @ CHR ''*'' # b) n = begins_and_ends a b n"
  by (auto simp: wild_match_prefix wild_match_star begins_and_ends_def)

lemma ishidden_pattern: "ishidden (a @ CHR ''*'' # b) = ishidden a"
  by (cases a) (simp_all add: ishidden_def startswith_def)

lemma no_magic_plain: "\<not> has_magic s \<Longrightarrow> plain s \<and> CHR ''['' \<notin> set s"
  by (auto simp: has_magic_def plain_def list_ex_iff)

lemma iterdir_not_dir: "d \<noteq> [] \<Longrightarrow> \<not> isdir fs d \<Longrightarrow> iterdir fs d = []"
  by (auto simp: iterdir_def isdir_def os_path_isdir_def os_scandir_def os_stat_def
           split: sum.splits option.splits node.splits if_splits)

lemma glob_star:
  assumes d: "\<not> has_magic d" and a: "\<not> has_magic a" "sep \<notin> set a"
    and b: "\<not> has_magic b" "sep \<notin> set b"
  shows "glob fs (d @ sep # a @ CHR ''*'' # b) =
           Some (map (os_path_join (searched_dir d))
                  (filter (\<lambda>name. (ishidden a \<or> \<not> ishidden name) \<and> begins_and_ends a b name)
                     (iterdir fs (searched_dir d))))"
proof -
  let ?pat = "a @ CHR ''*'' # b"
  have t: "sep \<notin> set ?pat" using a b by (simp add: sep_def)
  have sp: "os_path_split (d @ sep # ?pat) = (searched_dir d, ?pat)"
    using t by (rule os_path_split_after_sep)
  have m1: "has_magic (d @ sep # ?pat)" "has_magic ?pat"
    by (simp_all add: has_magic_def)
  have m2: "\<not> has_magic (searched_dir d)" using d by (rule searched_dir_no_magic)
  have br: "CHR ''['' \<notin> set ?pat" using a b by (auto dest: no_magic_plain)
  have pl: "plain a" "plain b" using a b by (auto dest: no_magic_plain)
  have g1: "glob1 fs (searched_dir d) ?pat =
      Some (filter (\<lambda>name. (ishidden a \<or> \<not> ishidden name) \<and> begins_and_ends a b name)
             (iterdir fs (searched_dir d)))"
    unfolding glob1_def Let_def fnmatch_filter_def ishidden_pattern
    using br pl by (auto simp: wild_match_around intro: filter_cong)
  show ?thesis
    unfolding glob_def Let_def sp fst_conv snd_conv
    using m1 m2 g1 by (simp add: searched_dir_not_Nil)
qed

subsection \<open>Files that are written\<close>

lemma map_of_filter_fst:
  "map_of (filter (\<lambda>e. fst e \<noteq> k) xs) k' = (if k' = k then None else map_of xs k')"
  by (induction xs) auto

lemma node_at_put:
  "k \<noteq> [] \<Longrightarrow> node_at (put fs k b) k' = (if k' = k then Some (File b) else node_at fs k')"
  by (simp add: node_at_def put_def map_of_filter_fst)

lemma not_Dir_not_root: "node_at fs k \<noteq> Some Dir \<Longrightarrow> k \<noteq> []"
  by (auto simp: node_at_def)

lemma cwd_put: "cwd (put fs k b) = cwd fs"
  by (simp add: put_def)

lemma put_put: "put (put fs k b) k b' = put fs k b'"
  by (simp add: put_def)

lemma contents_at_put: "k \<noteq> [] \<Longrightarrow>
  contents_at (put fs k b) k' = (if k' = k then b else contents_at fs k')"
  by (simp add: contents_at_def node_at_put)

lemma walk_put:
  assumes "node_at fs k \<noteq> Some Dir"
  shows "walk fs cur cs = Inr k' \<Longrightarrow> walk (put fs k b) cur cs = Inr k'"
proof (induction cs arbitrary: cur)
  case Nil
  then show ?case by simp
next
  case (Cons c cs)
  from Cons.prems have d: "node_at fs cur = Some Dir"
    by (auto split: option.splits node.splits)
  with assms have "cur \<noteq> k" by auto
  with d assms have "node_at (put fs k b) cur = Some Dir"
    by (simp add: node_at_put not_Dir_not_root)
  with d Cons show ?case by simp
qed

lemma resolve_put:
  "node_at fs k \<noteq> Some Dir \<Longrightarrow> resolve fs p = Inr k' \<Longrightarrow> resolve (put fs k b) p = Inr k'"
  by (auto simp: resolve_def cwd_put walk_put split: if_splits)

lemma os_stat_File:
  assumes "os_stat fs p = Inr (File b)"
  obtains k where "resolve fs p = Inr k" "node_at fs k = Some (File b)" "\<not> endswith p sep"
    "os_open_read fs p = Inr k" "contents_at fs k = b"
  using assms
  by (auto simp: os_stat_def os_open_read_def contents_at_def
           split: sum.splits option.splits node.splits if_splits)

lemma os_open_write_Inr:
  assumes "fst (os_open_write fs p) = Inr k"
  shows "resolve fs p = Inr k" "node_at fs k \<noteq> Some Dir" "\<not> endswith p sep"
    "os_open_write fs p = (Inr k, put fs k [])"
  using assms
  by (auto simp: os_open_write_def split: sum.splits option.splits node.splits if_splits)

lemma os_stat_put_same:
  assumes "resolve fs p = Inr k" "node_at fs k \<noteq> Some Dir" "\<not> endswith p sep"
  shows "os_stat (put fs k b) p = Inr (File b)"
  using assms resolve_put [OF assms(2) assms(1), of b]
  by (simp add: os_stat_def node_at_put not_Dir_not_root)

lemma os_stat_put_other:
  assumes "node_at fs k \<noteq> Some Dir" "os_stat fs p = Inr (File c)" "resolve fs p \<noteq> Inr k"
  shows "os_stat (put fs k b) p = Inr (File c)"
proof -
  from assms(2) obtain k' where k': "resolve fs p = Inr k'" "node_at fs k' = Some (File c)"
    "\<not> endswith p sep"
    by (rule os_stat_File)
  with assms(3) have "k' \<noteq> k" by simp
  with k' assms(1) resolve_put [OF assms(1) k'(1), of b] show ?thesis
    by (simp add: os_stat_def node_at_put not_Dir_not_root)
qed

lemma os_open_write_put_other:
  assumes "node_at fs k \<noteq> Some Dir" "fst (os_open_write fs p) = Inr k'" "k' \<noteq> k"
  shows "os_open_write (put fs k b) p = (Inr k', put (put fs k b) k' [])"
proof -
  note w = os_open_write_Inr [OF assms(2)]
  have r: "resolve (put fs k b) p = Inr k'"
    using assms(1) w(1) by (rule resolve_put)
  have n: "node_at (put fs k b) k' = node_at fs k'"
    using assms by (simp add: node_at_put not_Dir_not_root)
  have "node_at fs k' = None \<Longrightarrow> node_at fs (butlast k') = Some Dir"
    using assms(2) w(1)
    by (auto simp: os_open_write_def split: sum.splits option.splits node.splits if_splits)
  then have "node_at fs k' = None \<Longrightarrow> node_at (put fs k b) (butlast k') = Some Dir"
    using assms(1) by (auto simp: node_at_put not_Dir_not_root)
  then show ?thesis
    using r n w(2) w(3)
    by (auto simp: os_open_write_def split: option.splits node.splits)
qed






subsection \<open>Universal newlines\<close>

lemma CR_not_LF: "CR \<noteq> LF"
  by (simp add: CR_def LF_def)

lemma universal_newlines_no_CR: "CR \<notin> set (universal_newlines t)"
  by (induction t rule: universal_newlines.induct) (auto simp: CR_not_LF)

lemma universal_newlines_id: "CR \<notin> set t \<Longrightarrow> universal_newlines t = t"
  by (induction t rule: universal_newlines.induct) auto

lemma universal_newlines_idem: "universal_newlines (universal_newlines t) = universal_newlines t"
  by (simp add: universal_newlines_id universal_newlines_no_CR)

section \<open>Facts about the module's functions\<close>

lemma read_file_text:
  assumes "os_stat fs filepath = Inr (File b)" "cs encoding = Some c" "decode c b = Some t"
  shows "read_file cs fs filepath encoding False = Inr (Text (universal_newlines t))"
proof -
  from assms(1) obtain k where "os_open_read fs filepath = Inr k" "contents_at fs k = b"
    by (rule os_stat_File)
  with assms(2,3) show ?thesis
    by (simp add: read_file_def py_open_def binary_def writing_def file_read_def)
qed


lemma convert_file_charset_step:
  assumes src: "os_stat fs src_path = Inr (File b)"
    and sc: "cs src_encoding = Some sc" and dc: "cs dest_encoding = Some dc"
    and dst: "fst (os_open_write fs dest_path) = Inr kd"
    and diff: "resolve fs src_path \<noteq> Inr kd"
    and dec: "decode sc b = Some t"
    and enc: "encode dc (universal_newlines t) = Some b'"
  shows "convert_file_charset cs fs src_path dest_path src_encoding dest_encoding =
           (Inr (), put fs kd b')"
proof -
  from src obtain ks where ks: "resolve fs src_path = Inr ks" "os_open_read fs src_path = Inr ks"
    "contents_at fs ks = b"
    by (rule os_stat_File)
  note w = os_open_write_Inr [OF dst]
  have kd: "kd \<noteq> []" using w(2) by (rule not_Dir_not_root)
  have ne: "ks \<noteq> kd" using ks(1) diff by simp
  have o1: "py_open cs fs src_path Mode_r (Some src_encoding) = (Inr (TextReader ks sc), fs)"
    using ks(2) sc by (simp add: py_open_def binary_def writing_def)
  have o2: "py_open cs fs dest_path Mode_w (Some dest_encoding) =
      (Inr (TextWriter kd dc), put fs kd [])"
    using w(4) dc by (simp add: py_open_def binary_def writing_def)
  have r: "file_read (put fs kd []) (TextReader ks sc) = Inr (Text (universal_newlines t))"
    using ks(3) ne kd dec by (simp add: file_read_def contents_at_put)
  have wr: "file_write (put fs kd []) (TextWriter kd dc) (Text (universal_newlines t)) =
      (Inr (), put fs kd b')"
    using enc kd by (simp add: file_write_def contents_at_put put_put)
  show ?thesis
    by (simp add: convert_file_charset_def o1 o2 r wr)
qed

lemma validate_path_dir_TypeError: "validate_path_dir fs path = Inl TypeError"
  by (simp add: validate_path_dir_def os_path_isdir_def)

lemma copy_files_TypeError:
  "copy_files w src_list dest_dir ignore_none_file = (Inl TypeError, w)"
  by (simp add: copy_files_def validate_path_dir_TypeError)

lemma deref_update: "r < length h \<Longrightarrow> deref (h[r := xs]) r = xs"
  by (simp add: deref_def)

lemma update_deref: "h[r := deref h r] = h"
  by (simp add: deref_def list_update_beyond)

lemma pop_each_descending:
  "r < length h \<Longrightarrow> deref h r = xs @ ys \<Longrightarrow>
   pop_each h r (rev (map fst (filter (\<lambda>e. P (snd e)) (enumerate 0 xs)))) =
     (Inr (rev (filter P xs)), h[r := filter (\<lambda>x. \<not> P x) xs @ ys])"
proof (induction xs arbitrary: h ys rule: rev_induct)
  case Nil
  then show ?case using update_deref [of h r] by simp
next
  case (snoc x xs)
  have en: "enumerate 0 (xs @ [x]) = enumerate 0 xs @ [(length xs, x)]"
    by (simp add: enumerate_append_eq)
  show ?case
  proof (cases "P x")
    case True
    let ?h = "h[r := xs @ ys]"
    have pop: "list_pop h r (length xs) = (Inr x, ?h)"
      using snoc.prems by (simp add: list_pop_def Let_def)
    have "r < length ?h" "deref ?h r = xs @ ys"
      using snoc.prems by (simp_all add: deref_update)
    then have "pop_each ?h r (rev (map fst (filter (\<lambda>e. P (snd e)) (enumerate 0 xs)))) =
       (Inr (rev (filter P xs)), ?h[r := filter (\<lambda>x. \<not> P x) xs @ ys])"
      by (rule snoc.IH)
    with True pop show ?thesis by (simp add: en)
  next
    case False
    have "deref h r = xs @ (x # ys)" using snoc.prems by simp
    with snoc.prems(1)
    have "pop_each h r (rev (map fst (filter (\<lambda>e. P (snd e)) (enumerate 0 xs)))) =
       (Inr (rev (filter P xs)), h[r := filter (\<lambda>x. \<not> P x) xs @ (x # ys)])"
      by (rule snoc.IH)
    with False show ?thesis by (simp add: en)
  qed
qed

lemma pop_none_file_paths_partition:
  assumes "r < length h"
  shows "pop_none_file_paths fs h r =
           (Inr (filter (\<lambda>p. \<not> os_path_isfile fs p) (deref h r)),
            h[r := filter (os_path_isfile fs) (deref h r)])"
  using pop_each_descending [OF assms, of "deref h r" "[]" "\<lambda>p. \<not> os_path_isfile fs p"]
  by (simp add: pop_none_file_paths_def Let_def)

lemma copy_files_validated_eq:
  "copy_files_validated w src_list dest_dir ignore_none_file =
     (let xs = deref (lists w) src_list;
          missing = filter (\<lambda>p. \<not> os_path_isfile (files w) p) xs;
          present = filter (os_path_isfile (files w)) xs
      in if missing \<noteq> [] \<and> \<not> ignore_none_file
         then (Inl (FileNotFoundError (str_join '', '' missing)), w\<lparr>lists := lists w @ [present]\<rparr>)
         else (fst (copy_each (files w) dest_dir present),
               \<lparr>files = snd (copy_each (files w) dest_dir present),
                lists = lists w @ [present]\<rparr>))"
proof -
  let ?h = "lists w"
  have lc: "list_copy ?h src_list = (length ?h, ?h @ [deref ?h src_list])"
    by (simp add: list_copy_def)
  have d: "deref (?h @ [deref ?h src_list]) (length ?h) = deref ?h src_list"
    by (simp add: deref_def)
  have "pop_none_file_paths (files w) (?h @ [deref ?h src_list]) (length ?h) =
     (Inr (filter (\<lambda>p. \<not> os_path_isfile (files w) p) (deref ?h src_list)),
      ?h @ [filter (os_path_isfile (files w)) (deref ?h src_list)])"
    using pop_none_file_paths_partition [of "length ?h" "?h @ [deref ?h src_list]" "files w"]
    by (simp add: d)
  then show ?thesis
    unfolding copy_files_validated_def lc fst_conv snd_conv Let_def
    by (simp add: raise_fnf_error_def deref_def split: prod.splits)
qed

text \<open>
  What the statements after the validation do when a source is missing and missing
  sources are not ignored: they raise \<^verbatim>\<open>FileNotFoundError\<close> with the missing paths
  joined by \<^verbatim>\<open>", "\<close>, and no file is touched.
\<close>

lemma copy_files_validated_missing:
  assumes "\<not> list_all (os_path_isfile (files w)) (deref (lists w) src_list)"
  shows "copy_files_validated w src_list dest_dir False =
           (Inl (FileNotFoundError
                  (str_join '', '' (filter (\<lambda>p. \<not> os_path_isfile (files w) p)
                                      (deref (lists w) src_list)))),
            w\<lparr>lists := lists w @ [filter (os_path_isfile (files w)) (deref (lists w) src_list)]\<rparr>)"
proof -
  from assms have "filter (\<lambda>p. \<not> os_path_isfile (files w) p) (deref (lists w) src_list) \<noteq> []"
    by (auto simp: list_all_iff filter_empty_conv)
  then show ?thesis by (simp add: copy_files_validated_eq Let_def)
qed

section \<open>Claim C1: get\_file\_list\<close>

text \<open>
  Claim C1, as amended. For a directory path and two name fragments without wildcard
  characters, the fragments also without a slash, \<^verbatim>\<open>get_file_list(src_dir, suffix, prefix)\<close>
  returns, in the directory's order, the path \<^verbatim>\<open>dir/name\<close> of exactly the entries of the
  searched directory whose name is \<^verbatim>\<open>suffix + middle + prefix\<close>: the argument called
  \<^verbatim>\<open>suffix\<close> is the leading fragment and the argument called \<^verbatim>\<open>prefix\<close> the trailing
  one. Names that begin with a dot are left out unless the leading fragment begins with
  a dot. The result is empty when the searched directory is not an existing directory.
  The searched directory is \<^verbatim>\<open>src_dir\<close> itself when that is not empty and has no
  trailing slash.
\<close>

theorem get_file_list_matches:
  assumes "\<not> has_magic src_dir"
    and "\<not> has_magic suffix" and "sep \<notin> set suffix"
    and "\<not> has_magic prefix" and "sep \<notin> set prefix"
  shows "get_file_list fs src_dir suffix prefix =
           Some (map (os_path_join (searched_dir src_dir))
                  (filter (\<lambda>name. (ishidden suffix \<or> \<not> ishidden name)
                                   \<and> begins_and_ends suffix prefix name)
                     (iterdir fs (searched_dir src_dir))))
         \<and> (\<not> isdir fs (searched_dir src_dir) \<longrightarrow>
              get_file_list fs src_dir suffix prefix = Some [])
         \<and> (src_dir \<noteq> [] \<and> \<not> endswith src_dir sep \<longrightarrow> searched_dir src_dir = src_dir)"
proof -
  have "src_dir @ ''/'' @ suffix @ ''*'' @ prefix = src_dir @ sep # suffix @ CHR ''*'' # prefix"
    by (simp add: sep_def)
  then have 1: "get_file_list fs src_dir suffix prefix =
           Some (map (os_path_join (searched_dir src_dir))
                  (filter (\<lambda>name. (ishidden suffix \<or> \<not> ishidden name)
                                   \<and> begins_and_ends suffix prefix name)
                     (iterdir fs (searched_dir src_dir))))"
    unfolding get_file_list_def using glob_star [OF assms] by simp
  moreover have "\<not> isdir fs (searched_dir src_dir) \<Longrightarrow>
      get_file_list fs src_dir suffix prefix = Some []"
    using 1 iterdir_not_dir [OF searched_dir_not_Nil] by simp
  ultimately show ?thesis by (simp add: searched_dir_canonical)
qed

text \<open>The theorem at work on the sample file system.\<close>

theorem get_file_list_matches_witness:
  "get_file_list sample_fs ''/d'' ''ab'' ''.txt'' = Some [''/d/ab.txt'']
   \<and> get_file_list sample_fs ''/d'' [] ''.txt'' = Some [''/d/ab.txt'']
   \<and> get_file_list sample_fs ''/nowhere'' ''ab'' ''.txt'' = Some []"
proof -
  have h: "\<not> has_magic ''/d''" "\<not> has_magic ''ab''" "sep \<notin> set ''ab''"
    "\<not> has_magic ''.txt''" "sep \<notin> set ''.txt''" "\<not> has_magic []" "sep \<notin> set []"
    "\<not> has_magic ''/nowhere''"
    by (simp_all add: has_magic_def sep_def)
  have e1: "Some (map (os_path_join (searched_dir ''/d''))
                  (filter (\<lambda>name. (ishidden ''ab'' \<or> \<not> ishidden name)
                                   \<and> begins_and_ends ''ab'' ''.txt'' name)
                     (iterdir sample_fs (searched_dir ''/d'')))) = Some [''/d/ab.txt'']"
    by code_simp
  have e2: "Some (map (os_path_join (searched_dir ''/d''))
                  (filter (\<lambda>name. (ishidden [] \<or> \<not> ishidden name)
                                   \<and> begins_and_ends [] ''.txt'' name)
                     (iterdir sample_fs (searched_dir ''/d'')))) = Some [''/d/ab.txt'']"
    by code_simp
  have e3: "\<not> isdir sample_fs (searched_dir ''/nowhere'')"
    by code_simp
  have w1: "get_file_list sample_fs ''/d'' ''ab'' ''.txt'' = Some [''/d/ab.txt'']"
    using get_file_list_matches [OF h(1) h(2) h(3) h(4) h(5), of sample_fs, THEN conjunct1] e1
    by (simp only:)
  have w2: "get_file_list sample_fs ''/d'' [] ''.txt'' = Some [''/d/ab.txt'']"
    using get_file_list_matches [OF h(1) h(6) h(7) h(4) h(5), of sample_fs, THEN conjunct1] e2
    by (simp only:)
  have w3: "get_file_list sample_fs ''/nowhere'' ''ab'' ''.txt'' = Some []"
    using get_file_list_matches [OF h(8) h(2) h(3) h(4) h(5), of sample_fs,
        THEN conjunct2, THEN conjunct1] e3
    by blast
  from w1 w2 w3 show ?thesis by blast
qed

text \<open>
  Claim C1 as the specification states it fails. With \<^verbatim>\<open>suffix = ".txt"\<close> and
  \<^verbatim>\<open>prefix = "ab"\<close>: the directory \<^verbatim>\<open>/d\<close> holds \<^verbatim>\<open>ab.txt\<close>, whose name begins with the
  prefix and ends with the suffix, and \<^verbatim>\<open>get_file_list\<close> returns nothing, because it
  looks for \<^verbatim>\<open>.txt*ab\<close>. With both fragments empty, so that every name begins and ends
  with them: the entry \<^verbatim>\<open>.ab.txt\<close> of \<^verbatim>\<open>/d\<close> is not returned.
\<close>

theorem get_file_list_counterexample:
  "get_file_list sample_fs ''/d'' ''.txt'' ''ab'' = Some []
   \<and> map (os_path_join ''/d'') (filter (begins_and_ends ''ab'' ''.txt'') (iterdir sample_fs ''/d''))
       = [''/d/ab.txt'']
   \<and> get_file_list sample_fs ''/d'' [] [] = Some [''/d/ab.txt'', ''/d/abc'', ''/d/t.json'']
   \<and> iterdir sample_fs ''/d'' = [''ab.txt'', ''abc'', ''.ab.txt'', ''t.json'']"
  by code_simp

section \<open>Claims C2, C3 and C4: copy\_files\<close>

text \<open>
  Claim C2 says that \<^verbatim>\<open>copy_files\<close> first checks that \<^verbatim>\<open>dest_dir\<close> is an existing
  directory, raises \<^verbatim>\<open>FileNotFoundError\<close> when it is not, and goes on when it is. The
  check \<^verbatim>\<open>__validate_path_dir__\<close> calls \<^verbatim>\<open>os.path.isdir(str)\<close> with the builtin class
  instead of its parameter \<^verbatim>\<open>path\<close>, which raises \<^verbatim>\<open>TypeError\<close>: for every argument the
  validation, and with it \<^verbatim>\<open>copy_files\<close>, ends with \<^verbatim>\<open>TypeError\<close> and the state as it
  was, also for the existing directory \<^verbatim>\<open>/out\<close>.
\<close>

theorem copy_files_validation_TypeError:
  "validate_path_dir fs dest_dir = Inl TypeError
   \<and> copy_files w src_list dest_dir ignore_none_file = (Inl TypeError, w)
   \<and> isdir sample_fs ''/out''
   \<and> copy_files sample_world 0 ''/out'' True = (Inl TypeError, sample_world)"
proof -
  have "isdir sample_fs ''/out''" by code_simp
  then show ?thesis by (simp add: validate_path_dir_TypeError copy_files_TypeError)
qed

text \<open>
  Claim C3 says that \<^verbatim>\<open>copy_files\<close> with a missing source and
  \<^verbatim>\<open>ignore_none_file=False\<close> raises \<^verbatim>\<open>FileNotFoundError\<close> listing the missing paths. On
  the specification's example (\<^verbatim>\<open>/tmp/a.txt\<close> exists, \<^verbatim>\<open>/tmp/missing.txt\<close> does not,
  \<^verbatim>\<open>/out\<close> is a directory) the call raises \<^verbatim>\<open>TypeError\<close> from the validation; the
  statements after the validation would raise the \<^verbatim>\<open>FileNotFoundError\<close> of the claim.
\<close>

theorem copy_files_missing_source_TypeError:
  "deref (lists sample_world) 0 = [''/tmp/a.txt'', ''/tmp/missing.txt'']
   \<and> os_path_isfile sample_fs ''/tmp/a.txt''
   \<and> os_stat sample_fs ''/tmp/missing.txt'' = Inl ENOENT
   \<and> isdir sample_fs ''/out''
   \<and> copy_files sample_world 0 ''/out'' False = (Inl TypeError, sample_world)
   \<and> copy_files_validated sample_world 0 ''/out'' False =
       (Inl (FileNotFoundError ''/tmp/missing.txt''),
        sample_world\<lparr>lists := lists sample_world @ [[''/tmp/a.txt'']]\<rparr>)"
  by code_simp

text \<open>
  Claim C4 says that \<^verbatim>\<open>copy_files\<close> with \<^verbatim>\<open>ignore_none_file=True\<close> raises no error and
  copies the existing sources. On the specification's example the call raises
  \<^verbatim>\<open>TypeError\<close> from the validation and \<^verbatim>\<open>/out/a.txt\<close> is not created; the statements
  after the validation would create \<^verbatim>\<open>/out/a.txt\<close> only.
\<close>

theorem copy_files_ignore_missing_TypeError:
  "copy_files sample_world 0 ''/out'' True = (Inl TypeError, sample_world)
   \<and> os_stat (files (snd (copy_files sample_world 0 ''/out'' True))) ''/out/a.txt'' = Inl ENOENT
   \<and> fst (copy_files_validated sample_world 0 ''/out'' True) = Inr ()
   \<and> os_stat (files (snd (copy_files_validated sample_world 0 ''/out'' True))) ''/out/a.txt''
       = Inr (File [104, 105])
   \<and> os_stat (files (snd (copy_files_validated sample_world 0 ''/out'' True))) ''/out/missing.txt''
       = Inl ENOENT"
  by code_simp

section \<open>Claim C5: read\_file\_lines\<close>

text \<open>
  Claim C5, as amended. For a file whose bytes decode under the encoding to the text
  \<open>t\<close>, \<^verbatim>\<open>read_file_lines\<close> returns the pieces between the \<^verbatim>\<open>\n\<close> of the text that
  universal-newlines mode delivers, in which every \<^verbatim>\<open>\r\n\<close> and every lone \<^verbatim>\<open>\r\<close> of \<open>t\<close>
  has become \<^verbatim>\<open>\n\<close>: no returned line holds a carriage return or a newline, the lines
  joined by \<^verbatim>\<open>\n\<close> are that text, and that text is \<open>t\<close> itself when \<open>t\<close> has no carriage
  return.
\<close>

theorem read_file_lines_universal_newlines:
  assumes "os_stat fs filepath = Inr (File b)" "cs encoding = Some c" "decode c b = Some t"
  shows "read_file_lines cs fs filepath encoding = Inr (str_split LF (universal_newlines t))
         \<and> (\<forall>line \<in> set (str_split LF (universal_newlines t)). CR \<notin> set line \<and> LF \<notin> set line)
         \<and> str_join [LF] (str_split LF (universal_newlines t)) = universal_newlines t
         \<and> (CR \<notin> set t \<longrightarrow> universal_newlines t = t)"
proof -
  have "read_file cs fs filepath encoding False = Inr (Text (universal_newlines t))"
    using assms by (rule read_file_text [of fs filepath b cs encoding c t])
  then have 1: "read_file_lines cs fs filepath encoding = Inr (str_split LF (universal_newlines t))"
    by (simp add: read_file_lines_def)
  have 2: "CR \<notin> set line \<and> LF \<notin> set line"
    if "line \<in> set (str_split LF (universal_newlines t))" for line
    using str_split_pieces [OF that] universal_newlines_no_CR [of t] by auto
  from 1 2 show ?thesis
    by (simp add: str_join_str_split universal_newlines_id)
qed

text \<open>
  On the sample files: \<^verbatim>\<open>a\r\nb\<close> gives the lines \<^verbatim>\<open>a\<close>, \<^verbatim>\<open>b\<close>, and \<^verbatim>\<open>a\nb\nc\<close> gives
  \<^verbatim>\<open>a\<close>, \<^verbatim>\<open>b\<close>, \<^verbatim>\<open>c\<close>.
\<close>

theorem read_file_lines_universal_newlines_witness:
  "read_file_lines sample_codecs sample_fs ''/d/ab.txt'' ''utf-8'' = Inr [[97], [98]]
   \<and> read_file_lines sample_codecs sample_fs ''/d/abc'' ''utf-8'' = Inr [[97], [98], [99]]"
proof -
  have c: "sample_codecs ''utf-8'' = Some seven_bit_codec" by (simp add: sample_codecs_def)
  have s1: "os_stat sample_fs ''/d/ab.txt'' = Inr (File [97, 13, 10, 98])" by code_simp
  have d1: "decode seven_bit_codec [97, 13, 10, 98] = Some [97, 13, 10, 98]"
    by (simp add: seven_bit_codec_def)
  have e1: "str_split LF (universal_newlines [97, 13, 10, 98]) = [[97], [98]]"
    by (simp add: LF_def CR_def)
  have s2: "os_stat sample_fs ''/d/abc'' = Inr (File [97, 10, 98, 10, 99])" by code_simp
  have d2: "decode seven_bit_codec [97, 10, 98, 10, 99] = Some [97, 10, 98, 10, 99]"
    by (simp add: seven_bit_codec_def)
  have e2: "str_split LF (universal_newlines [97, 10, 98, 10, 99]) = [[97], [98], [99]]"
    by (simp add: LF_def CR_def)
  show ?thesis
    using read_file_lines_universal_newlines
        [of sample_fs "''/d/ab.txt''" _ sample_codecs "''utf-8''" seven_bit_codec, OF s1 c d1,
         THEN conjunct1]
      read_file_lines_universal_newlines
        [of sample_fs "''/d/abc''" _ sample_codecs "''utf-8''" seven_bit_codec, OF s2 c d2,
         THEN conjunct1]
    by (simp only: e1 e2)
qed

text \<open>
  Claim C5 as the specification states it fails: the file \<^verbatim>\<open>/d/ab.txt\<close> holds
  \<^verbatim>\<open>a\r\nb\<close>, and the first line returned is \<^verbatim>\<open>a\<close>, not \<^verbatim>\<open>a\r\<close>.
\<close>

theorem read_file_lines_counterexample:
  "os_stat sample_fs ''/d/ab.txt'' = Inr (File [97, 13, 10, 98])
   \<and> decode seven_bit_codec [97, 13, 10, 98] = Some [97, CR, LF, 98]
   \<and> read_file_lines sample_codecs sample_fs ''/d/ab.txt'' ''utf-8'' = Inr [[97], [98]]
   \<and> read_file_lines sample_codecs sample_fs ''/d/ab.txt'' ''utf-8'' \<noteq> Inr [[97, CR], [98]]"
  by code_simp

section \<open>Claim C6: read\_file in binary mode\<close>

text \<open>
  Claim C6 says that \<^verbatim>\<open>read_file(path, encoding, is_binary=True)\<close> returns the bytes of
  the file. The code passes \<^verbatim>\<open>encoding\<close> to \<^verbatim>\<open>open\<close> together with the mode \<^verbatim>\<open>"rb"\<close>,
  which \<^verbatim>\<open>open\<close> refuses: for every file and every encoding the call raises
  \<^verbatim>\<open>ValueError\<close>, also for the existing file \<^verbatim>\<open>/tmp/a.txt\<close> of the sample file system.
\<close>

theorem read_file_binary_ValueError:
  "read_file cs fs filepath encoding True = Inl ValueError
   \<and> os_stat sample_fs ''/tmp/a.txt'' = Inr (File [104, 105])
   \<and> read_file sample_codecs sample_fs ''/tmp/a.txt'' ''utf-8'' True = Inl ValueError"
proof -
  have "read_file cs fs filepath encoding True = Inl ValueError" for cs fs filepath encoding
    by (simp add: read_file_def py_open_def binary_def)
  moreover have "os_stat sample_fs ''/tmp/a.txt'' = Inr (File [104, 105])"
    by code_simp
  ultimately show ?thesis by simp
qed

section \<open>Claim C7: copy\_file\<close>




section \<open>Claim C8: read\_json\_file\<close>




section \<open>Claim C9: the list given to copy\_files\<close>

text \<open>
  Claim C9, as amended. \<^verbatim>\<open>copy_files\<close> never changes the caller's list: every list
  object the caller has is after the call what it was before. The statements after the
  validation take the missing entries out of a new list object, the copy made by
  \<^verbatim>\<open>src_list.copy()\<close>, which ends holding the entries that are existing files, in their
  order; the list \<^verbatim>\<open>src_list\<close> refers to stays as it was.
\<close>

theorem copy_files_keeps_src_list:
  "lists (snd (copy_files w src_list dest_dir ignore_none_file)) = lists w
   \<and> lists (snd (copy_files_validated w src_list dest_dir ignore_none_file)) =
       lists w @ [filter (os_path_isfile (files w)) (deref (lists w) src_list)]
   \<and> deref (lists (snd (copy_files_validated w src_list dest_dir ignore_none_file))) src_list
       = deref (lists w) src_list"
proof -
  have 1: "lists (snd (copy_files_validated w src_list dest_dir ignore_none_file)) =
       lists w @ [filter (os_path_isfile (files w)) (deref (lists w) src_list)]"
    by (simp add: copy_files_validated_eq Let_def)
  have 2: "deref (lists w @ [filter (os_path_isfile (files w)) (deref (lists w) src_list)]) src_list
       = deref (lists w) src_list"
    by (auto simp: deref_def nth_append)
  from 1 2 show ?thesis by (simp add: copy_files_TypeError)
qed

text \<open>
  Claim C9 as the specification states it fails: after the call, and also after the
  statements that follow the validation have made their copies, the caller's list still
  holds the missing \<^verbatim>\<open>/tmp/missing.txt\<close>.
\<close>

theorem copy_files_src_list_counterexample:
  "deref (lists sample_world) 0 = [''/tmp/a.txt'', ''/tmp/missing.txt'']
   \<and> os_stat sample_fs ''/tmp/missing.txt'' = Inl ENOENT
   \<and> fst (copy_files_validated sample_world 0 ''/out'' True) = Inr ()
   \<and> deref (lists (snd (copy_files_validated sample_world 0 ''/out'' True))) 0
       = [''/tmp/a.txt'', ''/tmp/missing.txt'']
   \<and> deref (lists (snd (copy_files sample_world 0 ''/out'' True))) 0
       = [''/tmp/a.txt'', ''/tmp/missing.txt'']"
  by code_simp

section \<open>Claim C10: convert\_file\_charset there and back\<close>

text \<open>
  Claim C10, as amended. Let the source file hold the UTF-8 encoding of a text \<open>t\<close>, and
  let \<open>t\<close> with every \<^verbatim>\<open>\r\n\<close> and lone \<^verbatim>\<open>\r\<close> replaced by \<^verbatim>\<open>\n\<close> be representable in
  Shift-JIS and in UTF-8 (each codec encodes it and decodes the result back to it). If
  the intermediate path can be opened for writing and is not the source file, and the
  final path can be opened for writing and is not the intermediate file, then converting
  from UTF-8 to Shift-JIS and back to UTF-8 succeeds, and the final file holds, and is
  read back as, \<open>t\<close> with every \<^verbatim>\<open>\r\n\<close> and lone \<^verbatim>\<open>\r\<close> replaced by \<^verbatim>\<open>\n\<close>. That is \<open>t\<close>
  itself exactly when \<open>t\<close> has no carriage return.
\<close>

theorem convert_round_trip:
  assumes u: "cs ''utf-8'' = Some u" and s: "cs ''shift_jis'' = Some s"
    and src: "os_stat fs src_path = Inr (File b0)" and dec: "decode u b0 = Some t"
    and mid: "fst (os_open_write fs mid_path) = Inr km" and diff: "resolve fs src_path \<noteq> Inr km"
    and bk: "fst (os_open_write fs back_path) = Inr kb" and diff': "kb \<noteq> km"
    and enc1: "encode s (universal_newlines t) = Some b1"
    and dec1: "decode s b1 = Some (universal_newlines t)"
    and enc2: "encode u (universal_newlines t) = Some b2"
    and dec2: "decode u b2 = Some (universal_newlines t)"
  shows "convert_there_and_back cs fs src_path mid_path back_path =
           (Inr (), put (put fs km b1) kb b2)
         \<and> os_stat (put (put fs km b1) kb b2) back_path = Inr (File b2)
         \<and> read_file cs (put (put fs km b1) kb b2) back_path ''utf-8'' False =
             Inr (Text (universal_newlines t))
         \<and> (universal_newlines t = t) = (CR \<notin> set t)"
proof -
  let ?fs1 = "put fs km b1"
  note wm = os_open_write_Inr [OF mid]
  note wb = os_open_write_Inr [OF bk]
  have step1: "convert_file_charset cs fs src_path mid_path ''utf-8'' ''shift_jis'' = (Inr (), ?fs1)"
    using src u s mid diff dec enc1 by (rule convert_file_charset_step)
  have src1: "os_stat ?fs1 mid_path = Inr (File b1)"
    using wm(1) wm(2) wm(3) by (rule os_stat_put_same)
  have back1: "os_open_write ?fs1 back_path = (Inr kb, put ?fs1 kb [])"
    using wm(2) bk diff' by (rule os_open_write_put_other)
  then have back1': "fst (os_open_write ?fs1 back_path) = Inr kb" by simp
  have "resolve ?fs1 mid_path = Inr km" using wm(2) wm(1) by (rule resolve_put)
  with diff' have diff1: "resolve ?fs1 mid_path \<noteq> Inr kb" by simp
  have enc2': "encode u (universal_newlines (universal_newlines t)) = Some b2"
    using enc2 by (simp add: universal_newlines_idem)
  have step2: "convert_file_charset cs ?fs1 mid_path back_path ''shift_jis'' ''utf-8'' =
      (Inr (), put ?fs1 kb b2)"
    using src1 s u back1' diff1 dec1 enc2' by (rule convert_file_charset_step)
  have 1: "convert_there_and_back cs fs src_path mid_path back_path = (Inr (), put ?fs1 kb b2)"
    by (simp add: convert_there_and_back_def step1 step2)
  note wb1 = os_open_write_Inr [OF back1']
  have 2: "os_stat (put ?fs1 kb b2) back_path = Inr (File b2)"
    using wb1(1) wb1(2) wb1(3) by (rule os_stat_put_same)
  have 3: "read_file cs (put ?fs1 kb b2) back_path ''utf-8'' False = Inr (Text (universal_newlines t))"
    using read_file_text [of "put ?fs1 kb b2" back_path b2 cs "''utf-8''" u "universal_newlines t"]
      2 u dec2
    by (simp add: universal_newlines_idem)
  have 4: "(universal_newlines t = t) = (CR \<notin> set t)"
    using universal_newlines_no_CR [of t] universal_newlines_id [of t] by auto
  from 1 2 3 4 show ?thesis by simp
qed

text \<open>The text \<^verbatim>\<open>a\nb\nc\<close> of the sample file \<^verbatim>\<open>/d/abc\<close> comes back as it was.\<close>

theorem convert_round_trip_witness:
  "fst (convert_there_and_back sample_codecs sample_fs ''/d/abc'' ''/d/sjis.txt'' ''/d/back.txt'')
     = Inr ()
   \<and> os_stat sample_fs ''/d/abc'' = Inr (File [97, 10, 98, 10, 99])
   \<and> os_stat (snd (convert_there_and_back sample_codecs sample_fs
                     ''/d/abc'' ''/d/sjis.txt'' ''/d/back.txt'')) ''/d/back.txt''
       = Inr (File [97, 10, 98, 10, 99])"
proof -
  have u: "sample_codecs ''utf-8'' = Some seven_bit_codec"
    and s: "sample_codecs ''shift_jis'' = Some seven_bit_codec"
    by (simp_all add: sample_codecs_def)
  have src: "os_stat sample_fs ''/d/abc'' = Inr (File [97, 10, 98, 10, 99])" by code_simp
  have dec: "decode seven_bit_codec [97, 10, 98, 10, 99] = Some [97, 10, 98, 10, 99]"
    by (simp add: seven_bit_codec_def)
  have mid: "fst (os_open_write sample_fs ''/d/sjis.txt'') = Inr [''d'', ''sjis.txt'']"
    by code_simp
  have diff: "resolve sample_fs ''/d/abc'' \<noteq> Inr [''d'', ''sjis.txt'']" by code_simp
  have bk: "fst (os_open_write sample_fs ''/d/back.txt'') = Inr [''d'', ''back.txt'']"
    by code_simp
  have diff': "[''d'', ''back.txt''] \<noteq> [''d'', ''sjis.txt'']" by simp
  have un: "universal_newlines [97, 10, 98, 10, 99] = [97, 10, 98, 10, 99]"
    by (simp add: CR_def LF_def)
  have enc: "encode seven_bit_codec (universal_newlines [97, 10, 98, 10, 99]) =
      Some [97, 10, 98, 10, 99]"
    unfolding un by (simp add: seven_bit_codec_def)
  have dec': "decode seven_bit_codec [97, 10, 98, 10, 99] =
      Some (universal_newlines [97, 10, 98, 10, 99])"
    unfolding un by (rule dec)
  have "convert_there_and_back sample_codecs sample_fs ''/d/abc'' ''/d/sjis.txt'' ''/d/back.txt'' =
           (Inr (), put (put sample_fs [''d'', ''sjis.txt''] [97, 10, 98, 10, 99])
                      [''d'', ''back.txt''] [97, 10, 98, 10, 99])
         \<and> os_stat (put (put sample_fs [''d'', ''sjis.txt''] [97, 10, 98, 10, 99])
                      [''d'', ''back.txt''] [97, 10, 98, 10, 99]) ''/d/back.txt''
             = Inr (File [97, 10, 98, 10, 99])"
    using convert_round_trip [OF u s src dec mid diff bk diff' enc dec' enc dec'] by blast
  with src show ?thesis by simp
qed

text \<open>
  Claim C10 as the specification states it fails: the text \<^verbatim>\<open>a\r\nb\<close> is 7-bit text,
  representable in both encodings, and after the two conversions the file holds
  \<^verbatim>\<open>a\nb\<close>.
\<close>

theorem convert_round_trip_counterexample:
  "os_stat sample_fs ''/d/ab.txt'' = Inr (File [97, 13, 10, 98])
   \<and> decode seven_bit_codec [97, 13, 10, 98] = Some [97, CR, LF, 98]
   \<and> fst (convert_there_and_back sample_codecs sample_fs ''/d/ab.txt'' ''/d/sjis.txt'' ''/d/back.txt'')
       = Inr ()
   \<and> os_stat (snd (convert_there_and_back sample_codecs sample_fs
                     ''/d/ab.txt'' ''/d/sjis.txt'' ''/d/back.txt'')) ''/d/back.txt''
       = Inr (File [97, 10, 98])
   \<and> decode seven_bit_codec [97, 10, 98] = Some [97, LF, 98]
   \<and> [97, LF, 98] \<noteq> [97, CR, LF, 98]"
  by code_simp

end
